theory Spec2Isabelle
  imports Main
begin

section \<open>The HTTP response of azure-core (response.cpp)\<close>

subsection \<open>Data model\<close>

text \<open>
  \<^verbatim>\<open>std::string\<close> is \<^typ>\<open>string\<close>, a list of 8-bit characters. An iterator into a
  string is a position: \<^verbatim>\<open>begin()\<close> is \<open>0\<close> and \<^verbatim>\<open>end()\<close> is the length. Dereferencing a
  position outside the string, or forming a range whose first position lies behind its
  end, is undefined behaviour in C++; the model makes it the error value below, so
  that "the code stays in bounds" is the statement that a result is \<open>Inr\<close>.
\<close>

datatype error = OutOfRange

definition deref :: "string \<Rightarrow> nat \<Rightarrow> error + char" where
  "deref s i = (if i < length s then Inr (s ! i) else Inl OutOfRange)"

text \<open>
  \<^verbatim>\<open>std::find(first, last, value)\<close>, with \<open>lim\<close> for its parameter \<^verbatim>\<open>last\<close>:
  \<^verbatim>\<open>for (; first != last; ++first) if (*first == value) return first; return last;\<close>
\<close>

function std_find :: "string \<Rightarrow> nat \<Rightarrow> nat \<Rightarrow> char \<Rightarrow> error + nat" where
  "std_find s first lim c =
     (if first = lim then Inr lim
      else if lim < first then Inl OutOfRange
      else (case deref s first of
              Inl e \<Rightarrow> Inl e
            | Inr x \<Rightarrow> if x = c then Inr first else std_find s (Suc first) lim c))"
  by pat_completeness auto
termination
  by (relation "measure (\<lambda>(s, first, lim, c). lim - first)") auto

declare std_find.simps [simp del]

text \<open>The range constructor \<^verbatim>\<open>std::string(first, last)\<close>: the characters of \<open>[first, lim)\<close>.\<close>

definition string_range :: "string \<Rightarrow> nat \<Rightarrow> nat \<Rightarrow> error + string" where
  "string_range s first lim =
     (if first \<le> lim \<and> lim \<le> length s then Inr (take (lim - first) (drop first s))
      else Inl OutOfRange)"

text \<open>
  \<^verbatim>\<open>std::map<std::string, std::string>\<close> holds at most one value per key, so it is a
  partial function from names to values. \<^verbatim>\<open>insert(pair)\<close> adds the pair only when the map
  has no element with that key, and otherwise leaves the map as it is.
\<close>

type_synonym headers = "string \<rightharpoonup> string"

definition map_insert :: "headers \<Rightarrow> string \<times> string \<Rightarrow> headers" where
  "map_insert m p = (case m (fst p) of None \<Rightarrow> m(fst p \<mapsto> snd p) | Some old \<Rightarrow> m)"

text \<open>
  \<^verbatim>\<open>std::unique_ptr<BodyStream>\<close> owns one stream or is null. The move assignment
  \<^verbatim>\<open>lhs = std::move(rhs)\<close> is \<^verbatim>\<open>lhs.reset(rhs.release())\<close>: \<open>lhs\<close> takes what \<open>rhs\<close> owned,
  \<open>rhs\<close> becomes null, and the object \<open>lhs\<close> owned before is deleted. The result is
  (\<open>lhs\<close> afterwards, \<open>rhs\<close> afterwards, the objects deleted). A \<^verbatim>\<open>unique_ptr\<close> that goes
  out of scope deletes the object it still owns.
\<close>

type_synonym 'a unique_ptr = "'a option"

definition unique_ptr_move_assign ::
  "'a unique_ptr \<Rightarrow> 'a unique_ptr \<Rightarrow> 'a unique_ptr \<times> 'a unique_ptr \<times> 'a list" where
  "unique_ptr_move_assign lhs rhs =
     (rhs, None, (case lhs of None \<Rightarrow> [] | Some old \<Rightarrow> [old]))"

definition unique_ptr_dtor :: "'a unique_ptr \<Rightarrow> 'a list" where
  "unique_ptr_dtor p = (case p of None \<Rightarrow> [] | Some x \<Rightarrow> [x])"

text \<open>
  The members of \<^verbatim>\<open>Response\<close> that response.cpp reads and writes. The status code type
  \<^verbatim>\<open>HttpStatusCode\<close> and the class \<^verbatim>\<open>BodyStream\<close> are declared in http.hpp; they are the
  type parameters \<open>'sc\<close> and \<open>'bs\<close>. A record is extensible, and the theorems below are
  stated for every extension of it, that is for whatever further members the class has.
\<close>

record ('sc, 'bs) Response =
  m_statusCode :: 'sc
  m_reasonPhrase :: string
  m_headers :: headers
  m_bodyStream :: "'bs unique_ptr"

subsection \<open>Operations\<close>

definition GetStatusCode :: "('sc, 'bs, 'z) Response_scheme \<Rightarrow> 'sc" where
  "GetStatusCode r = m_statusCode r"

definition GetReasonPhrase :: "('sc, 'bs, 'z) Response_scheme \<Rightarrow> string" where
  "GetReasonPhrase r = m_reasonPhrase r"

definition GetHeaders :: "('sc, 'bs, 'z) Response_scheme \<Rightarrow> headers" where
  "GetHeaders r = m_headers r"

text \<open>\<^verbatim>\<open>Response::AddHeader(std::string const& name, std::string const& value)\<close>\<close>

definition AddHeader ::
  "string \<Rightarrow> string \<Rightarrow> ('sc, 'bs, 'z) Response_scheme \<Rightarrow> ('sc, 'bs, 'z) Response_scheme" where
  "AddHeader name val r = r\<lparr>m_headers := map_insert (m_headers r) (name, val)\<rparr>"

text \<open>
  The loop of the line parser that moves \<open>start\<close> over spaces and tabs:
  \<^verbatim>\<open>while (start < header.end() && (*start == ' ' || *start == '\t')) ++start;\<close>
\<close>

function skip_space_tab :: "string \<Rightarrow> nat \<Rightarrow> error + nat" where
  "skip_space_tab header start =
     (if start < length header then
        (case deref header start of
           Inl e \<Rightarrow> Inl e
         | Inr x \<Rightarrow>
             if x = CHR '' '' \<or> x = CHR 0x09 then skip_space_tab header (Suc start)
             else Inr start)
      else Inr start)"
  by pat_completeness auto
termination
  by (relation "measure (\<lambda>(header, start). length header - start)") auto

declare skip_space_tab.simps [simp del]

text \<open>
  \<^verbatim>\<open>Response::AddHeader(std::string const& header)\<close>, the overload that parses one
  header line. The early \<^verbatim>\<open>return\<close> is the branch that gives the response back unchanged.
\<close>

definition AddHeader_line ::
  "string \<Rightarrow> ('sc, 'bs, 'z) Response_scheme \<Rightarrow> error + ('sc, 'bs, 'z) Response_scheme" where
  "AddHeader_line header r =
     (let start = 0; header_end = length header in
      case std_find header start header_end (CHR '':'') of
        Inl e \<Rightarrow> Inl e
      | Inr end1 \<Rightarrow>
          if end1 = header_end then Inr r
          else
            (case string_range header start end1 of
               Inl e \<Rightarrow> Inl e
             | Inr headerName \<Rightarrow>
                 (case skip_space_tab header (end1 + 1) of
                    Inl e \<Rightarrow> Inl e
                  | Inr start2 \<Rightarrow>
                      (case std_find header start2 header_end (CHR 0x0D) of
                         Inl e \<Rightarrow> Inl e
                       | Inr end2 \<Rightarrow>
                           (case string_range header start2 end2 of
                              Inl e \<Rightarrow> Inl e
                            | Inr headerValue \<Rightarrow>
                                Inr (AddHeader headerName headerValue r))))))"

text \<open>
  \<^verbatim>\<open>Response::SetBodyStream(std::unique_ptr<BodyStream> stream)\<close>: the member is
  move-assigned from the parameter, and the parameter is destroyed when the function
  returns. The result is the response and the streams deleted during the call.
\<close>

definition SetBodyStream ::
  "'bs unique_ptr \<Rightarrow> ('sc, 'bs, 'z) Response_scheme \<Rightarrow> ('sc, 'bs, 'z) Response_scheme \<times> 'bs list" where
  "SetBodyStream stream r =
     (case unique_ptr_move_assign (m_bodyStream r) stream of
        (member, stream_after, deleted) \<Rightarrow>
          (r\<lparr>m_bodyStream := member\<rparr>, deleted @ unique_ptr_dtor stream_after))"

text \<open>A sequence of calls made on one response after its construction.\<close>

datatype 'bs call =
    CallAddHeader string string
  | CallAddHeaderLine string
  | CallSetBodyStream "'bs unique_ptr"

fun perform ::
  "'bs call \<Rightarrow> ('sc, 'bs, 'z) Response_scheme \<Rightarrow> error + ('sc, 'bs, 'z) Response_scheme" where
  "perform (CallAddHeader name val) r = Inr (AddHeader name val r)"
| "perform (CallAddHeaderLine header) r = AddHeader_line header r"
| "perform (CallSetBodyStream stream) r = Inr (fst (SetBodyStream stream r))"

fun perform_all ::
  "'bs call list \<Rightarrow> ('sc, 'bs, 'z) Response_scheme \<Rightarrow> error + ('sc, 'bs, 'z) Response_scheme" where
  "perform_all [] r = Inr r"
| "perform_all (c # cs) r =
     (case perform c r of Inl e \<Rightarrow> Inl e | Inr r' \<Rightarrow> perform_all cs r')"

text \<open>
  A response as the transport holds it after the status line \<^verbatim>\<open>200 OK\<close>, before any
  header line: no header, no body stream. Status codes and streams are numbers here.
\<close>

definition response_200 :: "(nat, nat) Response" where
  "response_200 =
     \<lparr>m_statusCode = 200, m_reasonPhrase = ''OK'', m_headers = Map.empty, m_bodyStream = None\<rparr>"

subsection \<open>What the line parser computes, on lists\<close>

text \<open>
  The parser written over the list of characters instead of positions: the name is the
  text before the first colon, the value starts after the colon and the spaces and tabs
  that follow it, and ends before the first carriage return from there.
\<close>

definition is_space_tab :: "char \<Rightarrow> bool" where
  "is_space_tab x = (x = CHR '' '' \<or> x = CHR 0x09)"

definition line_name :: "string \<Rightarrow> string" where
  "line_name header = takeWhile (\<lambda>x. x \<noteq> CHR '':'') header"

definition line_rest :: "string \<Rightarrow> string" where
  "line_rest header = dropWhile is_space_tab (tl (dropWhile (\<lambda>x. x \<noteq> CHR '':'') header))"

definition line_value :: "string \<Rightarrow> string" where
  "line_value header = takeWhile (\<lambda>x. x \<noteq> CHR 0x0D) (line_rest header)"

subsection \<open>The positions the searches return\<close>

lemma std_find_range:
  "first \<le> lim \<Longrightarrow> lim \<le> length s \<Longrightarrow>
   std_find s first lim c =
     Inr (first + length (takeWhile (\<lambda>x. x \<noteq> c) (take (lim - first) (drop first s))))"
proof (induction s first lim c rule: std_find.induct)
  case (1 s first lim c)
  show ?case
  proof (cases "first = lim")
    case True
    then show ?thesis by (subst std_find.simps) simp
  next
    case False
    with "1.prems" have lt: "first < lim" and inb: "first < length s" by simp_all
    have cut: "take (lim - first) (drop first s) =
                 s ! first # take (lim - Suc first) (drop (Suc first) s)"
    proof -
      have "drop first s = s ! first # drop (Suc first) s"
        using inb by (simp add: Cons_nth_drop_Suc)
      moreover have "lim - first = Suc (lim - Suc first)" using lt by simp
      ultimately show ?thesis by simp
    qed
    show ?thesis
    proof (cases "s ! first = c")
      case True
      then show ?thesis
        using lt inb cut by (simp add: std_find.simps [of s first lim c] deref_def)
    next
      case neq: False
      have d: "deref s first = Inr (s ! first)" using inb by (simp add: deref_def)
      have "std_find s (Suc first) lim c =
              Inr (Suc first + length (takeWhile (\<lambda>x. x \<noteq> c)
                     (take (lim - Suc first) (drop (Suc first) s))))"
        using "1.IH" [OF False _ d neq] lt "1.prems" by simp
      then show ?thesis
        using lt inb cut neq by (simp add: std_find.simps [of s first lim c] deref_def)
    qed
  qed
qed

lemma std_find_to_end:
  "first \<le> length s \<Longrightarrow>
   std_find s first (length s) c = Inr (first + length (takeWhile (\<lambda>x. x \<noteq> c) (drop first s)))"
  using std_find_range [of first "length s" s c] by simp

lemma skip_space_tab_pos:
  "skip_space_tab header start =
     Inr (start + length (takeWhile is_space_tab (drop start header)))"
proof (induction header start rule: skip_space_tab.induct)
  case (1 header start)
  show ?case
  proof (cases "start < length header")
    case False
    then show ?thesis by (simp add: skip_space_tab.simps [of header start])
  next
    case True
    then have d: "deref header start = Inr (header ! start)" by (simp add: deref_def)
    have cut: "drop start header = header ! start # drop (Suc start) header"
      using True by (simp add: Cons_nth_drop_Suc)
    show ?thesis
    proof (cases "is_space_tab (header ! start)")
      case False
      then show ?thesis
        using True d cut by (simp add: skip_space_tab.simps [of header start] is_space_tab_def)
    next
      case blank: True
      then have b: "header ! start = CHR '' '' \<or> header ! start = CHR 0x09"
        by (simp add: is_space_tab_def)
      from "1.IH" [OF True d this]
      have "skip_space_tab header (Suc start) =
              Inr (Suc start + length (takeWhile is_space_tab (drop (Suc start) header)))" .
      then show ?thesis
        using True d cut blank b
        by (simp add: skip_space_tab.simps [of header start])
    qed
  qed
qed

subsection \<open>The line parser computes the name and the value, and stays in bounds\<close>

lemma line_name_length_le: "length (line_name header) \<le> length header"
  by (simp add: line_name_def length_takeWhile_le)

lemma line_name_length_less:
  assumes "CHR '':'' \<in> set header"
  shows "length (line_name header) < length header"
proof -
  have "line_name header \<noteq> header"
    using assms by (auto simp: line_name_def)
  moreover have "line_name header = take (length (line_name header)) header"
    unfolding line_name_def by (rule takeWhile_eq_take)
  ultimately have "length (line_name header) \<noteq> length header"
    by (metis order_refl take_all)
  with line_name_length_le [of header] show ?thesis by simp
qed

lemma after_colon:
  "drop (Suc (length (line_name header))) header = tl (dropWhile (\<lambda>x. x \<noteq> CHR '':'') header)"
proof -
  have "tl (dropWhile (\<lambda>x. x \<noteq> CHR '':'') header) = tl (drop (length (line_name header)) header)"
    unfolding line_name_def by (simp add: dropWhile_eq_drop [symmetric])
  then show ?thesis by (simp add: drop_Suc tl_drop)
qed

lemma find_colon:
  "std_find header 0 (length header) (CHR '':'') = Inr (length (line_name header))"
  using std_find_to_end [of 0 header "CHR '':''"] by (simp add: line_name_def)

lemma AddHeader_line_no_colon:
  assumes "CHR '':'' \<notin> set header"
  shows "AddHeader_line header r = Inr r"
proof -
  have "line_name header = header"
    using assms by (auto simp: line_name_def)
  then show ?thesis
    by (simp add: AddHeader_line_def find_colon)
qed

lemma AddHeader_line_colon:
  assumes "CHR '':'' \<in> set header"
  shows "AddHeader_line header r = Inr (AddHeader (line_name header) (line_value header) r)"
proof -
  define n where "n = length (line_name header)"
  define s2 where "s2 = Suc n + length (takeWhile is_space_tab (drop (Suc n) header))"
  define e2 where "e2 = s2 + length (line_value header)"
  have n_less: "n < length header"
    unfolding n_def using assms by (rule line_name_length_less)
  have name: "string_range header 0 n = Inr (line_name header)"
  proof -
    have "take n header = line_name header"
      unfolding n_def line_name_def by (rule takeWhile_eq_take [symmetric])
    then show ?thesis using n_less by (simp add: string_range_def)
  qed
  have skip: "skip_space_tab header (n + 1) = Inr s2"
    by (simp add: skip_space_tab_pos s2_def)
  have s2_le: "s2 \<le> length header"
  proof -
    have "length (takeWhile is_space_tab (drop (Suc n) header)) \<le> length header - Suc n"
      using length_takeWhile_le [of is_space_tab "drop (Suc n) header"] by simp
    then show ?thesis using n_less by (simp add: s2_def)
  qed
  have rest: "drop s2 header = line_rest header"
  proof -
    have "drop s2 header =
            drop (length (takeWhile is_space_tab (drop (Suc n) header))) (drop (Suc n) header)"
      by (simp add: s2_def add.commute)
    also have "\<dots> = dropWhile is_space_tab (drop (Suc n) header)"
      by (rule dropWhile_eq_drop [symmetric])
    finally show ?thesis by (simp add: line_rest_def n_def after_colon)
  qed
  have find_cr: "std_find header s2 (length header) (CHR 0x0D) = Inr e2"
    using std_find_to_end [OF s2_le, of "CHR 0x0D"] by (simp add: rest e2_def line_value_def)
  have e2_le: "e2 \<le> length header"
  proof -
    have "length (line_value header) \<le> length (line_rest header)"
      by (simp add: line_value_def length_takeWhile_le)
    also have "\<dots> = length header - s2" by (simp add: rest [symmetric])
    finally show ?thesis using s2_le by (simp add: e2_def)
  qed
  have val: "string_range header s2 e2 = Inr (line_value header)"
  proof -
    have "take (e2 - s2) (drop s2 header) = take (length (line_value header)) (line_rest header)"
      by (simp add: e2_def rest)
    also have "\<dots> = line_value header"
      unfolding line_value_def by (rule takeWhile_eq_take [symmetric])
    finally show ?thesis using e2_le by (simp add: string_range_def e2_def)
  qed
  show ?thesis
    using n_less name skip find_cr val
    by (simp add: AddHeader_line_def find_colon n_def [symmetric])
qed

lemma AddHeader_line_total:
  "AddHeader_line header r =
     Inr (if CHR '':'' \<in> set header then AddHeader (line_name header) (line_value header) r else r)"
  by (simp add: AddHeader_line_colon AddHeader_line_no_colon)

subsection \<open>Insertion into the header map\<close>

lemma GetHeaders_AddHeader:
  "GetHeaders (AddHeader name val r) =
     (case GetHeaders r name of None \<Rightarrow> (GetHeaders r)(name \<mapsto> val) | Some old \<Rightarrow> GetHeaders r)"
  by (simp add: GetHeaders_def AddHeader_def map_insert_def split: option.split)

lemma GetHeaders_AddHeader_fresh:
  "GetHeaders r name = None \<Longrightarrow> GetHeaders (AddHeader name val r) = (GetHeaders r)(name \<mapsto> val)"
  by (simp add: GetHeaders_AddHeader)

lemma AddHeader_present:
  "GetHeaders r name = Some old \<Longrightarrow> AddHeader name val r = r"
  by (simp add: GetHeaders_def AddHeader_def map_insert_def)

lemma GetHeaders_AddHeader_same:
  "GetHeaders (AddHeader name val r) name =
     Some (case GetHeaders r name of None \<Rightarrow> val | Some old \<Rightarrow> old)"
  by (simp add: GetHeaders_AddHeader split: option.split)

lemma dom_GetHeaders_AddHeader:
  "dom (GetHeaders (AddHeader name val r)) = insert name (dom (GetHeaders r))"
  by (auto simp: GetHeaders_AddHeader split: option.splits)

lemma AddHeader_frame:
  "GetStatusCode (AddHeader name val r) = GetStatusCode r"
  "GetReasonPhrase (AddHeader name val r) = GetReasonPhrase r"
  "m_bodyStream (AddHeader name val r) = m_bodyStream r"
  by (simp_all add: GetStatusCode_def GetReasonPhrase_def AddHeader_def)

lemma entries_of_name:
  "{v. (k, v) \<in> Map.graph m} = (case m k of None \<Rightarrow> {} | Some v \<Rightarrow> {v})"
  by (auto simp: graph_def split: option.splits)

lemma AddHeader_twice:
  "AddHeader name v2 (AddHeader name v1 r) = AddHeader name v1 r"
  using AddHeader_present [OF GetHeaders_AddHeader_same] .

subsection \<open>Attaching the body stream\<close>

lemma SetBodyStream_eq:
  "SetBodyStream stream r =
     (r\<lparr>m_bodyStream := stream\<rparr>, (case m_bodyStream r of None \<Rightarrow> [] | Some old \<Rightarrow> [old]))"
  by (simp add: SetBodyStream_def unique_ptr_move_assign_def unique_ptr_dtor_def)

lemma SetBodyStream_frame:
  "GetStatusCode (fst (SetBodyStream stream r)) = GetStatusCode r"
  "GetReasonPhrase (fst (SetBodyStream stream r)) = GetReasonPhrase r"
  "GetHeaders (fst (SetBodyStream stream r)) = GetHeaders r"
  by (simp_all add: SetBodyStream_eq GetStatusCode_def GetReasonPhrase_def GetHeaders_def)

subsection \<open>Sequences of calls\<close>

lemma perform_frame:
  "\<exists>r'. perform c r = Inr r' \<and> GetStatusCode r' = GetStatusCode r \<and>
     GetReasonPhrase r' = GetReasonPhrase r"
proof (cases c)
  case (CallAddHeader name val)
  then show ?thesis by (simp add: AddHeader_frame)
next
  case (CallAddHeaderLine header)
  then show ?thesis by (simp add: AddHeader_line_total AddHeader_frame)
next
  case (CallSetBodyStream stream)
  then show ?thesis by (simp add: SetBodyStream_frame)
qed

subsection \<open>The extent of the value\<close>

lemma set_tl_member: "x \<in> set (tl xs) \<Longrightarrow> x \<in> set xs"
  by (cases xs) simp_all

lemma line_rest_subset: "set (line_rest header) \<subseteq> set header"
proof
  fix x assume "x \<in> set (line_rest header)"
  then have "x \<in> set (tl (dropWhile (\<lambda>x. x \<noteq> CHR '':'') header))"
    unfolding line_rest_def by (rule set_dropWhileD)
  then have "x \<in> set (dropWhile (\<lambda>x. x \<noteq> CHR '':'') header)"
    by (rule set_tl_member)
  then show "x \<in> set header" by (rule set_dropWhileD)
qed

lemma line_value_no_cr:
  assumes "CHR 0x0D \<notin> set (line_rest header)"
  shows "line_value header = line_rest header"
  unfolding line_value_def using assms by (auto simp: takeWhile_eq_all_conv)

lemma line_rest_suffix: "\<exists>pre. header = pre @ line_rest header"
proof -
  let ?t = "tl (dropWhile (\<lambda>x. x \<noteq> CHR '':'') header)"
  have "header = take (Suc (length (line_name header))) header @ ?t"
    using append_take_drop_id [of "Suc (length (line_name header))" header]
    by (simp add: after_colon)
  also have "?t = takeWhile is_space_tab ?t @ line_rest header"
    by (simp add: line_rest_def)
  finally have "header =
      (take (Suc (length (line_name header))) header @ takeWhile is_space_tab ?t) @ line_rest header"
    by simp
  then show ?thesis by (rule exI)
qed

lemma line_rest_keeps_line_feed:
  assumes colon: "CHR '':'' \<in> set header" and lf: "last header = CHR 0x0A"
  shows "line_rest header \<noteq> [] \<and> last (line_rest header) = CHR 0x0A"
proof -
  let ?t = "tl (dropWhile (\<lambda>x. x \<noteq> CHR '':'') header)"
  have ne: "dropWhile (\<lambda>x. x \<noteq> CHR '':'') header \<noteq> []"
    using colon by simp
  then have "hd (dropWhile (\<lambda>x. x \<noteq> CHR '':'') header) = CHR '':''"
    using hd_dropWhile [of "\<lambda>x. x \<noteq> CHR '':''" header] by simp
  with ne have "dropWhile (\<lambda>x. x \<noteq> CHR '':'') header = CHR '':'' # ?t"
    by (metis list.collapse)
  then have split: "header = line_name header @ CHR '':'' # ?t"
    using takeWhile_dropWhile_id [of "\<lambda>x. x \<noteq> CHR '':''" header]
    by (simp add: line_name_def)
  have t_ne: "?t \<noteq> []"
  proof
    assume "?t = []"
    with split have "last header = CHR '':''"
      by (metis last_snoc)
    with lf show False by simp
  qed
  with split have t_last: "last ?t = CHR 0x0A"
    using lf by (metis last_ConsR last_appendR list.distinct(1))
  have "\<not> is_space_tab (last ?t)"
    by (simp add: t_last is_space_tab_def)
  moreover have "last ?t \<in> set ?t" using t_ne by simp
  ultimately have rest_ne: "line_rest header \<noteq> []"
    unfolding line_rest_def by auto
  have "?t = takeWhile is_space_tab ?t @ line_rest header"
    by (simp add: line_rest_def)
  with rest_ne have "last ?t = last (line_rest header)"
    by (metis last_appendR)
  with rest_ne t_last show ?thesis by simp
qed

lemma line_value_cut_at_cr:
  assumes "CHR 0x0D \<in> set (line_rest header)"
  shows "\<exists>dropped. line_rest header = line_value header @ CHR 0x0D # dropped"
proof -
  let ?d = "dropWhile (\<lambda>x. x \<noteq> CHR 0x0D) (line_rest header)"
  have ne: "?d \<noteq> []" using assms by simp
  then have "hd ?d = CHR 0x0D"
    using hd_dropWhile [of "\<lambda>x. x \<noteq> CHR 0x0D" "line_rest header"] by simp
  with ne have "?d = CHR 0x0D # tl ?d" by (metis list.collapse)
  then have "line_rest header = line_value header @ CHR 0x0D # tl ?d"
    using takeWhile_dropWhile_id [of "\<lambda>x. x \<noteq> CHR 0x0D" "line_rest header"]
    by (simp add: line_value_def)
  then show ?thesis by (rule exI)
qed

lemma line_value_has_no_cr: "CHR 0x0D \<notin> set (line_value header)"
  unfolding line_value_def by (auto dest: set_takeWhileD)

lemma GetHeaders_response_200: "GetHeaders response_200 = Map.empty"
  by (simp add: GetHeaders_def response_200_def)

section \<open>Properties of the specification\<close>

text \<open>
  C1, as the specification states it: after \<^verbatim>\<open>AddHeader(name, v1)\<close> and
  \<^verbatim>\<open>AddHeader(name, v2)\<close> both entries are retrievable from \<^verbatim>\<open>GetHeaders\<close>. The header
  collection is a \<^verbatim>\<open>std::map\<close>, which holds one value per name: on a response without
  headers, after adding \<^verbatim>\<open>Set-Cookie\<close> with \<^verbatim>\<open>a=1\<close> and then with \<^verbatim>\<open>b=2\<close>, the two entries
  are not both there.
\<close>

theorem C1_both_entries_counterexample:
  "\<not> ((''Set-Cookie'', ''a=1'') \<in>
         Map.graph (GetHeaders
           (AddHeader ''Set-Cookie'' ''b=2'' (AddHeader ''Set-Cookie'' ''a=1'' response_200))) \<and>
       (''Set-Cookie'', ''b=2'') \<in>
         Map.graph (GetHeaders
           (AddHeader ''Set-Cookie'' ''b=2'' (AddHeader ''Set-Cookie'' ''a=1'' response_200))))"
proof -
  have "GetHeaders (AddHeader ''Set-Cookie'' ''b=2'' (AddHeader ''Set-Cookie'' ''a=1'' response_200))
          ''Set-Cookie'' = Some ''a=1''"
    by (simp add: AddHeader_twice GetHeaders_AddHeader_same GetHeaders_response_200)
  then have "(''Set-Cookie'', ''b=2'') \<notin>
      Map.graph (GetHeaders
        (AddHeader ''Set-Cookie'' ''b=2'' (AddHeader ''Set-Cookie'' ''a=1'' response_200)))"
    by (auto dest: in_graphD)
  then show ?thesis by simp
qed

text \<open>
  C1, amended: after \<^verbatim>\<open>AddHeader(name, v1)\<close> and \<^verbatim>\<open>AddHeader(name, v2)\<close> with the same
  name, \<^verbatim>\<open>GetHeaders\<close> holds exactly one entry of that name. Its value is the one the
  response held for the name before the two calls, or \<open>v1\<close> when it held none, and the
  second call changes nothing. Likewise two line insertions with the same name leave
  the one entry that the first of them left.
\<close>

theorem C1_same_name_keeps_one_entry:
  "{v. (name, v) \<in> Map.graph (GetHeaders (AddHeader name v2 (AddHeader name v1 r)))} =
     {case GetHeaders r name of None \<Rightarrow> v1 | Some old \<Rightarrow> old} \<and>
   AddHeader name v2 (AddHeader name v1 r) = AddHeader name v1 r \<and>
   (CHR '':'' \<in> set l1 \<and> CHR '':'' \<in> set l2 \<and> line_name l2 = line_name l1 \<longrightarrow>
      (\<exists>r1. AddHeader_line l1 r = Inr r1 \<and> AddHeader_line l2 r1 = Inr r1 \<and>
         {v. (line_name l1, v) \<in> Map.graph (GetHeaders r1)} =
           {case GetHeaders r (line_name l1) of None \<Rightarrow> line_value l1 | Some old \<Rightarrow> old}))"
proof -
  have one: "{v. (n, v) \<in> Map.graph (GetHeaders (AddHeader n a q))} =
               {case GetHeaders q n of None \<Rightarrow> a | Some old \<Rightarrow> old}" for n a q
    by (simp add: entries_of_name GetHeaders_AddHeader_same)
  have direct: "{v. (name, v) \<in> Map.graph (GetHeaders (AddHeader name v2 (AddHeader name v1 r)))} =
                  {case GetHeaders r name of None \<Rightarrow> v1 | Some old \<Rightarrow> old}"
    by (simp only: AddHeader_twice one)
  have lines: "\<exists>r1. AddHeader_line l1 r = Inr r1 \<and> AddHeader_line l2 r1 = Inr r1 \<and>
         {v. (line_name l1, v) \<in> Map.graph (GetHeaders r1)} =
           {case GetHeaders r (line_name l1) of None \<Rightarrow> line_value l1 | Some old \<Rightarrow> old}"
    if "CHR '':'' \<in> set l1" "CHR '':'' \<in> set l2" "line_name l2 = line_name l1"
  proof (intro exI conjI)
    show "AddHeader_line l1 r = Inr (AddHeader (line_name l1) (line_value l1) r)"
      using that(1) by (rule AddHeader_line_colon)
    show "AddHeader_line l2 (AddHeader (line_name l1) (line_value l1) r) =
            Inr (AddHeader (line_name l1) (line_value l1) r)"
      using that(2,3) by (simp add: AddHeader_line_colon AddHeader_twice)
    show "{v. (line_name l1, v) \<in>
              Map.graph (GetHeaders (AddHeader (line_name l1) (line_value l1) r))} =
            {case GetHeaders r (line_name l1) of None \<Rightarrow> line_value l1 | Some old \<Rightarrow> old}"
      by (rule one)
  qed
  from direct lines show ?thesis
    by (simp only: AddHeader_twice) blast
qed

theorem C1_same_name_keeps_one_entry_witness:
  "{v. (''Set-Cookie'', v) \<in> Map.graph (GetHeaders
        (AddHeader ''Set-Cookie'' ''b=2'' (AddHeader ''Set-Cookie'' ''a=1'' response_200)))} =
     {''a=1''} \<and>
   (\<exists>r1. AddHeader_line ''Set-Cookie: a=1'' response_200 = Inr r1 \<and>
      AddHeader_line ''Set-Cookie:  b=2'' r1 = Inr r1 \<and>
      {v. (''Set-Cookie'', v) \<in> Map.graph (GetHeaders r1)} = {''a=1''})"
proof -
  have n1: "line_name ''Set-Cookie: a=1'' = ''Set-Cookie''"
    and n2: "line_name ''Set-Cookie:  b=2'' = ''Set-Cookie''"
    by (simp_all add: line_name_def)
  have v1: "line_value ''Set-Cookie: a=1'' = ''a=1''"
    by (simp add: line_value_def line_rest_def is_space_tab_def)
  show ?thesis
    using C1_same_name_keeps_one_entry [of "''Set-Cookie''" "''b=2''" "''a=1''" response_200
        "''Set-Cookie: a=1''" "''Set-Cookie:  b=2''"]
    by (simp add: n1 n2 v1 GetHeaders_response_200 entries_of_name GetHeaders_AddHeader_same)
qed

text \<open>
  C2. A line without a colon (an empty line, the blank line that ends the headers, a
  malformed line) makes the line-parsing \<^verbatim>\<open>AddHeader\<close> return normally, with no
  out-of-range access, and with the response, so also its header collection, exactly
  as it was.
\<close>

theorem C2_line_without_colon_is_noop:
  assumes "CHR '':'' \<notin> set header"
  shows "AddHeader_line header r = Inr r"
  using assms by (rule AddHeader_line_no_colon)

theorem C2_line_without_colon_witness:
  "AddHeader_line [] response_200 = Inr response_200 \<and>
   AddHeader_line [CHR 0x0D, CHR 0x0A] response_200 = Inr response_200 \<and>
   AddHeader_line ''HTTP/1.1 200 OK'' response_200 = Inr response_200"
  using C2_line_without_colon_is_noop [of "[]" response_200]
    C2_line_without_colon_is_noop [of "[CHR 0x0D, CHR 0x0A]" response_200]
    C2_line_without_colon_is_noop [of "''HTTP/1.1 200 OK''" response_200]
  by simp

text \<open>
  C3. The line \<^verbatim>\<open>"Content-Length: 42\r"\<close> is parsed into the name \<^verbatim>\<open>Content-Length\<close> and
  the value \<^verbatim>\<open>42\<close>, without the space after the colon and without the carriage return,
  and these are what the parser hands to the insertion. In a response that holds no
  entry of that name the insertion stores exactly this entry.
\<close>

theorem C3_content_length_line:
  "AddHeader_line (''Content-Length: 42'' @ [CHR 0x0D]) r =
     Inr (AddHeader ''Content-Length'' ''42'' r) \<and>
   (GetHeaders r ''Content-Length'' = None \<longrightarrow>
      GetHeaders (AddHeader ''Content-Length'' ''42'' r) =
        (GetHeaders r)(''Content-Length'' \<mapsto> ''42''))"
proof -
  have "line_name (''Content-Length: 42'' @ [CHR 0x0D]) = ''Content-Length''"
    by (simp add: line_name_def)
  moreover have "line_value (''Content-Length: 42'' @ [CHR 0x0D]) = ''42''"
    by (simp add: line_value_def line_rest_def is_space_tab_def)
  ultimately show ?thesis
    by (simp add: AddHeader_line_total GetHeaders_AddHeader_fresh)
qed

theorem C3_content_length_line_witness:
  "\<exists>r'. AddHeader_line (''Content-Length: 42'' @ [CHR 0x0D]) response_200 = Inr r' \<and>
     GetHeaders r' = [''Content-Length'' \<mapsto> ''42'']"
  using C3_content_length_line [of response_200]
  by (simp add: GetHeaders_response_200)

text \<open>
  C4. The line \<^verbatim>\<open>"X-Empty:"\<close> is parsed into the name \<^verbatim>\<open>X-Empty\<close> and the empty value.
  The loop over spaces and tabs starts at the end of the line, one past the colon,
  and stops there at once; the parser returns normally, so no position outside the line
  is read. In a response that holds no entry of that name the empty value is stored.
\<close>

theorem C4_empty_value_line:
  "AddHeader_line ''X-Empty:'' r = Inr (AddHeader ''X-Empty'' [] r) \<and>
   skip_space_tab ''X-Empty:'' (length ''X-Empty'' + 1) = Inr (length ''X-Empty:'') \<and>
   (GetHeaders r ''X-Empty'' = None \<longrightarrow>
      GetHeaders (AddHeader ''X-Empty'' [] r) = (GetHeaders r)(''X-Empty'' \<mapsto> []))"
proof -
  have "line_name ''X-Empty:'' = ''X-Empty''"
    by (simp add: line_name_def)
  moreover have "line_value ''X-Empty:'' = []"
    by (simp add: line_value_def line_rest_def)
  moreover have "skip_space_tab ''X-Empty:'' (length ''X-Empty'' + 1) = Inr (length ''X-Empty:'')"
    by (subst skip_space_tab.simps) simp
  ultimately show ?thesis
    by (simp add: AddHeader_line_total GetHeaders_AddHeader_fresh)
qed

theorem C4_empty_value_line_witness:
  "\<exists>r'. AddHeader_line ''X-Empty:'' response_200 = Inr r' \<and>
     GetHeaders r' = [''X-Empty'' \<mapsto> []]"
  using C4_empty_value_line [of response_200]
  by (simp add: GetHeaders_response_200)

text \<open>
  C5. A name is stored as it is given, with its case: the keys after an insertion are
  the keys before and the name itself. \<^verbatim>\<open>content-length\<close> and \<^verbatim>\<open>Content-Length\<close> are two
  different keys, so adding both, by \<^verbatim>\<open>AddHeader\<close> or by parsing lines, leaves both in the
  collection; in a response that held neither, each has the value given with it.
\<close>

theorem C5_names_keep_their_case:
  "dom (GetHeaders (AddHeader name val r)) = insert name (dom (GetHeaders r)) \<and>
   ''content-length'' \<noteq> ''Content-Length'' \<and>
   dom (GetHeaders (AddHeader ''Content-Length'' v2 (AddHeader ''content-length'' v1 r))) =
     dom (GetHeaders r) \<union> {''content-length'', ''Content-Length''} \<and>
   (GetHeaders r ''content-length'' = None \<and> GetHeaders r ''Content-Length'' = None \<longrightarrow>
      GetHeaders (AddHeader ''Content-Length'' v2 (AddHeader ''content-length'' v1 r)) =
        (GetHeaders r)(''content-length'' \<mapsto> v1, ''Content-Length'' \<mapsto> v2)) \<and>
   (\<exists>r1. AddHeader_line ''content-length: 1'' r = Inr r1 \<and>
      AddHeader_line ''Content-Length: 2'' r1 =
        Inr (AddHeader ''Content-Length'' ''2'' (AddHeader ''content-length'' ''1'' r)))"
proof -
  have keys: "dom (GetHeaders (AddHeader ''Content-Length'' v2 (AddHeader ''content-length'' v1 r))) =
      dom (GetHeaders r) \<union> {''content-length'', ''Content-Length''}"
    by (simp only: dom_GetHeaders_AddHeader) blast
  have vals: "GetHeaders (AddHeader ''Content-Length'' v2 (AddHeader ''content-length'' v1 r)) =
        (GetHeaders r)(''content-length'' \<mapsto> v1, ''Content-Length'' \<mapsto> v2)"
    if "GetHeaders r ''content-length'' = None" "GetHeaders r ''Content-Length'' = None"
  proof -
    have first: "GetHeaders (AddHeader ''content-length'' v1 r) =
                   (GetHeaders r)(''content-length'' \<mapsto> v1)"
      using that(1) by (rule GetHeaders_AddHeader_fresh)
    then have "GetHeaders (AddHeader ''content-length'' v1 r) ''Content-Length'' = None"
      using that(2) by simp
    then show ?thesis
      by (simp add: GetHeaders_AddHeader_fresh first)
  qed
  have "line_name ''content-length: 1'' = ''content-length''"
    and "line_name ''Content-Length: 2'' = ''Content-Length''"
    by (simp_all add: line_name_def)
  moreover have "line_value ''content-length: 1'' = ''1''"
    and "line_value ''Content-Length: 2'' = ''2''"
    by (simp_all add: line_value_def line_rest_def is_space_tab_def)
  ultimately have lines: "\<exists>r1. AddHeader_line ''content-length: 1'' r = Inr r1 \<and>
      AddHeader_line ''Content-Length: 2'' r1 =
        Inr (AddHeader ''Content-Length'' ''2'' (AddHeader ''content-length'' ''1'' r))"
    by (simp add: AddHeader_line_total)
  from keys vals lines show ?thesis
    by (simp only: dom_GetHeaders_AddHeader) simp
qed

theorem C5_names_keep_their_case_witness:
  "GetHeaders (AddHeader ''Content-Length'' ''2'' (AddHeader ''content-length'' ''1'' response_200)) =
     [''content-length'' \<mapsto> ''1'', ''Content-Length'' \<mapsto> ''2''] \<and>
   dom (GetHeaders
     (AddHeader ''Content-Length'' ''2'' (AddHeader ''content-length'' ''1'' response_200))) =
     {''content-length'', ''Content-Length''}"
  using C5_names_keep_their_case [of "''x''" "''y''" response_200 "''2''" "''1''"]
  by (simp add: GetHeaders_response_200 insert_commute)

text \<open>
  C6. Whatever sequence of \<^verbatim>\<open>AddHeader\<close>, line-parsing \<^verbatim>\<open>AddHeader\<close> and \<^verbatim>\<open>SetBodyStream\<close>
  calls is made on a response, every call returns, and \<^verbatim>\<open>GetStatusCode\<close> and
  \<^verbatim>\<open>GetReasonPhrase\<close> give afterwards what they gave before the first call, that is the
  values the response was constructed with.
\<close>

theorem C6_status_and_reason_are_kept:
  "\<exists>r'. perform_all cs r = Inr r' \<and>
     GetStatusCode r' = GetStatusCode r \<and> GetReasonPhrase r' = GetReasonPhrase r"
proof (induction cs arbitrary: r)
  case Nil
  show ?case by simp
next
  case (Cons c cs)
  obtain r1 where step: "perform c r = Inr r1"
    and keep: "GetStatusCode r1 = GetStatusCode r" "GetReasonPhrase r1 = GetReasonPhrase r"
    using perform_frame [of c r] by blast
  from Cons.IH [of r1] obtain r' where "perform_all cs r1 = Inr r'"
    and "GetStatusCode r' = GetStatusCode r1" "GetReasonPhrase r' = GetReasonPhrase r1"
    by blast
  with step keep show ?case by simp
qed

theorem C6_status_and_reason_are_kept_witness:
  "\<exists>r'. perform_all
           [CallAddHeaderLine (''Content-Length: 42'' @ [CHR 0x0D]),
            CallAddHeader ''ETag'' ''x'',
            CallSetBodyStream (Some 7),
            CallAddHeaderLine [CHR 0x0D, CHR 0x0A],
            CallSetBodyStream (Some 8)] response_200 = Inr r' \<and>
     GetStatusCode r' = 200 \<and> GetReasonPhrase r' = ''OK''"
  using C6_status_and_reason_are_kept [of
      "[CallAddHeaderLine (''Content-Length: 42'' @ [CHR 0x0D]),
        CallAddHeader ''ETag'' ''x'',
        CallSetBodyStream (Some 7),
        CallAddHeaderLine [CHR 0x0D, CHR 0x0A],
        CallSetBodyStream (Some 8)]" response_200]
  by (simp add: GetStatusCode_def GetReasonPhrase_def response_200_def)

text \<open>
  C7. After \<^verbatim>\<open>SetBodyStream(stream)\<close> the response holds the given stream in its owning
  pointer, and the only thing deleted during the call is the stream the response held
  before, if it held one: the given stream, unless it is that very one, is not deleted,
  since the parameter is null once it has been moved from. Nothing but the body stream
  member changes; status code, reason phrase and headers are as before.
\<close>

theorem C7_SetBodyStream_replaces_stream:
  "fst (SetBodyStream stream r) = r\<lparr>m_bodyStream := stream\<rparr> \<and>
   m_bodyStream (fst (SetBodyStream stream r)) = stream \<and>
   snd (SetBodyStream stream r) = (case m_bodyStream r of None \<Rightarrow> [] | Some old \<Rightarrow> [old]) \<and>
   (\<forall>s. stream = Some s \<and> m_bodyStream r \<noteq> Some s \<longrightarrow> s \<notin> set (snd (SetBodyStream stream r))) \<and>
   GetStatusCode (fst (SetBodyStream stream r)) = GetStatusCode r \<and>
   GetReasonPhrase (fst (SetBodyStream stream r)) = GetReasonPhrase r \<and>
   GetHeaders (fst (SetBodyStream stream r)) = GetHeaders r"
proof -
  have "s \<notin> set (snd (SetBodyStream stream r))" if "m_bodyStream r \<noteq> Some s" for s
    using that by (cases "m_bodyStream r") (simp_all add: SetBodyStream_eq)
  then show ?thesis
    by (auto simp: SetBodyStream_eq GetStatusCode_def GetReasonPhrase_def GetHeaders_def)
qed

theorem C7_SetBodyStream_replaces_stream_witness:
  "SetBodyStream (Some 2) (fst (SetBodyStream (Some 1) response_200)) =
     (response_200\<lparr>m_bodyStream := Some 2\<rparr>, [1]) \<and>
   SetBodyStream (Some 1) response_200 = (response_200\<lparr>m_bodyStream := Some 1\<rparr>, [])"
  using C7_SetBodyStream_replaces_stream [of "Some 2" "fst (SetBodyStream (Some 1) response_200)"]
    C7_SetBodyStream_replaces_stream [of "Some 1" response_200]
  by (simp add: prod_eq_iff response_200_def)

text \<open>
  C8. For a line with a colon, the value handed to the insertion (and stored, when the
  response holds no entry of the name) runs from the first character after the colon
  that is neither space nor tab. When the line has no carriage return the value is all
  the rest of the line, up to its end: it is a suffix of the line, and a line feed that
  ends the line ends the value. When there is a carriage return in that rest, the value
  is the text before the first one, and that carriage return and what follows it are
  dropped. "The first carriage return" is read as the first one from the start of the
  value, which is where the code searches.
\<close>

theorem C8_value_extent:
  assumes "CHR '':'' \<in> set header"
  shows "AddHeader_line header r = Inr (AddHeader (line_name header) (line_value header) r) \<and>
    (GetHeaders r (line_name header) = None \<longrightarrow>
       GetHeaders (AddHeader (line_name header) (line_value header) r) (line_name header) =
         Some (line_value header)) \<and>
    (CHR 0x0D \<notin> set header \<longrightarrow>
       line_value header =
         dropWhile is_space_tab (tl (dropWhile (\<lambda>x. x \<noteq> CHR '':'') header)) \<and>
       (\<exists>pre. header = pre @ line_value header) \<and>
       (last header = CHR 0x0A \<longrightarrow>
          line_value header \<noteq> [] \<and> last (line_value header) = CHR 0x0A)) \<and>
    (CHR 0x0D \<in> set (line_rest header) \<longrightarrow>
       (\<exists>dropped. line_rest header = line_value header @ CHR 0x0D # dropped) \<and>
       CHR 0x0D \<notin> set (line_value header))"
proof (intro conjI impI)
  show "AddHeader_line header r = Inr (AddHeader (line_name header) (line_value header) r)"
    using assms by (rule AddHeader_line_colon)
next
  assume "GetHeaders r (line_name header) = None"
  then show "GetHeaders (AddHeader (line_name header) (line_value header) r) (line_name header) =
               Some (line_value header)"
    by (simp add: GetHeaders_AddHeader_same)
next
  assume "CHR 0x0D \<notin> set header"
  then have "CHR 0x0D \<notin> set (line_rest header)"
    using line_rest_subset [of header] by blast
  then have eq: "line_value header = line_rest header"
    by (rule line_value_no_cr)
  show "line_value header = dropWhile is_space_tab (tl (dropWhile (\<lambda>x. x \<noteq> CHR '':'') header))"
    using eq by (simp add: line_rest_def)
  show "\<exists>pre. header = pre @ line_value header"
    using line_rest_suffix [of header] by (simp add: eq)
  {
    assume "last header = CHR 0x0A"
    with assms have keep: "line_rest header \<noteq> [] \<and> last (line_rest header) = CHR 0x0A"
      by (rule line_rest_keeps_line_feed)
    show "line_value header \<noteq> []" using keep by (simp add: eq)
    show "last (line_value header) = CHR 0x0A" using keep by (simp add: eq)
  }
next
  assume "CHR 0x0D \<in> set (line_rest header)"
  then show "\<exists>dropped. line_rest header = line_value header @ CHR 0x0D # dropped"
    by (rule line_value_cut_at_cr)
next
  show "CHR 0x0D \<notin> set (line_value header)"
    by (rule line_value_has_no_cr)
qed

theorem C8_value_extent_witness:
  "(\<exists>r'. AddHeader_line (''Host: example'' @ [CHR 0x0A]) response_200 = Inr r' \<and>
      GetHeaders r' = [''Host'' \<mapsto> ''example'' @ [CHR 0x0A]]) \<and>
   (\<exists>r'. AddHeader_line (''Host: a'' @ [CHR 0x0D, CHR 0x0A]) response_200 = Inr r' \<and>
      GetHeaders r' = [''Host'' \<mapsto> ''a'']) \<and>
   line_rest (''Host: a'' @ [CHR 0x0D, CHR 0x0A]) = ''a'' @ [CHR 0x0D, CHR 0x0A]"
proof -
  have colon: "CHR '':'' \<in> set (''Host: example'' @ [CHR 0x0A])"
    and colon': "CHR '':'' \<in> set (''Host: a'' @ [CHR 0x0D, CHR 0x0A])"
    by simp_all
  have eval: "line_name (''Host: example'' @ [CHR 0x0A]) = ''Host''"
    "line_value (''Host: example'' @ [CHR 0x0A]) = ''example'' @ [CHR 0x0A]"
    "line_name (''Host: a'' @ [CHR 0x0D, CHR 0x0A]) = ''Host''"
    "line_value (''Host: a'' @ [CHR 0x0D, CHR 0x0A]) = ''a''"
    "line_rest (''Host: a'' @ [CHR 0x0D, CHR 0x0A]) = ''a'' @ [CHR 0x0D, CHR 0x0A]"
    by (simp_all add: line_name_def line_value_def line_rest_def is_space_tab_def)
  show ?thesis
    using C8_value_extent [OF colon, of response_200] C8_value_extent [OF colon', of response_200]
    unfolding eval
    by (simp add: GetHeaders_AddHeader_fresh GetHeaders_response_200)
qed

text \<open>
  C9. When the response already holds an entry with name \<open>n\<close> and value \<open>v\<close>, a later
  \<^verbatim>\<open>AddHeader(n, v2)\<close> with another value leaves the response unchanged: \<open>v\<close> is kept and
  \<open>v2\<close> is not among the entries.
\<close>

theorem C9_first_insertion_wins:
  assumes "GetHeaders r n = Some v" and "v2 \<noteq> v"
  shows "AddHeader n v2 r = r \<and>
         GetHeaders (AddHeader n v2 r) n = Some v \<and>
         (n, v2) \<notin> Map.graph (GetHeaders (AddHeader n v2 r))"
proof -
  have same: "AddHeader n v2 r = r"
    using assms(1) by (rule AddHeader_present)
  moreover have "(n, v2) \<notin> Map.graph (GetHeaders r)"
  proof
    assume "(n, v2) \<in> Map.graph (GetHeaders r)"
    then have "GetHeaders r n = Some v2" by (rule in_graphD)
    with assms show False by simp
  qed
  ultimately show ?thesis using assms(1) by simp
qed

theorem C9_first_insertion_wins_witness:
  "AddHeader ''ETag'' ''new'' (AddHeader ''ETag'' ''old'' response_200) =
     AddHeader ''ETag'' ''old'' response_200 \<and>
   GetHeaders (AddHeader ''ETag'' ''new'' (AddHeader ''ETag'' ''old'' response_200)) ''ETag'' =
     Some ''old'' \<and>
   (''ETag'', ''new'') \<notin>
     Map.graph (GetHeaders (AddHeader ''ETag'' ''new'' (AddHeader ''ETag'' ''old'' response_200)))"
proof -
  have held: "GetHeaders (AddHeader ''ETag'' ''old'' response_200) ''ETag'' = Some ''old''"
    by (simp add: GetHeaders_AddHeader_same GetHeaders_response_200)
  have differ: "''new'' \<noteq> ''old''" by simp
  show ?thesis
    using C9_first_insertion_wins [OF held differ] .
qed

text \<open>
  C10. The name handed to the insertion is the text before the first colon as it is,
  empty or with blanks: the line \<^verbatim>\<open>":value"\<close> gives the empty name and the line
  \<^verbatim>\<open>"Name : v"\<close> gives the name \<^verbatim>\<open>"Name "\<close>, and the name is a key of the header collection
  afterwards.
\<close>

theorem C10_name_is_verbatim_prefix:
  "(CHR '':'' \<in> set header \<longrightarrow>
      (\<exists>val r'. AddHeader_line header r = Inr r' \<and>
         r' = AddHeader (takeWhile (\<lambda>x. x \<noteq> CHR '':'') header) val r \<and>
         dom (GetHeaders r') =
           insert (takeWhile (\<lambda>x. x \<noteq> CHR '':'') header) (dom (GetHeaders r)))) \<and>
   AddHeader_line '':value'' r = Inr (AddHeader [] ''value'' r) \<and>
   AddHeader_line ''Name : v'' r = Inr (AddHeader ''Name '' ''v'' r)"
proof -
  have "line_name '':value'' = []" and "line_name ''Name : v'' = ''Name ''"
    by (simp_all add: line_name_def)
  moreover have "line_value '':value'' = ''value''" and "line_value ''Name : v'' = ''v''"
    by (simp_all add: line_value_def line_rest_def is_space_tab_def)
  moreover have "\<exists>val. AddHeader (line_name header) (line_value header) r =
                    AddHeader (line_name header) val r"
    by (rule exI) (rule refl)
  ultimately show ?thesis
    by (simp add: AddHeader_line_total dom_GetHeaders_AddHeader line_name_def [symmetric])
qed

theorem C10_name_is_verbatim_prefix_witness:
  "(\<exists>r'. AddHeader_line '':value'' response_200 = Inr r' \<and> GetHeaders r' = [[] \<mapsto> ''value'']) \<and>
   (\<exists>r'. AddHeader_line ''Name : v'' response_200 = Inr r' \<and>
      GetHeaders r' = [''Name '' \<mapsto> ''v'']) \<and>
   (\<exists>val r'. AddHeader_line ''a b:c'' response_200 = Inr r' \<and>
      r' = AddHeader ''a b'' val response_200 \<and> dom (GetHeaders r') = {''a b''})"
  using C10_name_is_verbatim_prefix [of "''a b:c''" response_200]
  by (simp add: GetHeaders_AddHeader_fresh GetHeaders_response_200)

end
